theory Spec2Isabelle
  imports Main "HOL-Library.Sublist" "HOL-Library.Multiset"
begin

section \<open>JavaScript array primitives used by the sources\<close>

text \<open>
  \<^verbatim>\<open>Array.prototype.indexOf\<close> compares with strict equality and answers \<open>-1\<close> when the
  value does not occur. Participants are callbacks compared by identity; the element type
  stands for those identities.
\<close>

fun indexOfFrom :: "int \<Rightarrow> 'a list \<Rightarrow> 'a \<Rightarrow> int" where
  "indexOfFrom i [] v = -1"
| "indexOfFrom i (x # xs) v = (if x = v then i else indexOfFrom (i + 1) xs v)"

definition indexOf :: "'a list \<Rightarrow> 'a \<Rightarrow> int" where
  "indexOf xs v = indexOfFrom 0 xs v"

text \<open>
  \<^verbatim>\<open>Array.prototype.splice(start, deleteCount)\<close> with no inserted items. A negative
  \<open>start\<close> counts from the end of the array (clamped at 0), a \<open>start\<close> beyond the end is
  clamped to the length, and \<open>deleteCount\<close> is clamped to what is left after \<open>start\<close>.
  The result is the array after the call.
\<close>

definition splice :: "'a list \<Rightarrow> int \<Rightarrow> int \<Rightarrow> 'a list" where
  "splice xs start deleteCount =
     (let len = int (length xs);
          actualStart = (if start < 0 then max (len + start) 0 else min start len);
          actualDeleteCount = min (max deleteCount 0) (len - actualStart)
      in take (nat actualStart) xs @ drop (nat (actualStart + actualDeleteCount)) xs)"

section \<open>The theming registry\<close>

record 'p ThemingRegistry =
  themingParticipants :: "'p list"

text \<open>The constructor assigns the empty array.\<close>

definition newThemingRegistry :: "'p ThemingRegistry" where
  "newThemingRegistry = \<lparr>themingParticipants = []\<rparr>"

text \<open>
  The handle returned by \<open>onThemeChange\<close> is a closure over the registered participant;
  the only thing it remembers is that participant.
\<close>

datatype 'p IDisposable = Disposable 'p

definition onThemeChange :: "'p \<Rightarrow> 'p ThemingRegistry \<Rightarrow> 'p IDisposable \<times> 'p ThemingRegistry" where
  "onThemeChange participant reg =
     (Disposable participant,
      reg\<lparr>themingParticipants := themingParticipants reg @ [participant]\<rparr>)"

fun dispose :: "'p IDisposable \<Rightarrow> 'p ThemingRegistry \<Rightarrow> 'p ThemingRegistry" where
  "dispose (Disposable participant) reg =
     (let idx = indexOf (themingParticipants reg) participant
      in reg\<lparr>themingParticipants := splice (themingParticipants reg) idx 1\<rparr>)"

definition getThemingParticipants :: "'p ThemingRegistry \<Rightarrow> 'p list" where
  "getThemingParticipants reg = themingParticipants reg"

section \<open>Document symbols: data model\<close>

text \<open>
  A navigation tree node as the language server sends it. The text spans are only handed
  to the range converter, so their type is left open. \<open>childItems\<close> is an optional
  property of the protocol type.
\<close>

datatype 's NavigationTree =
  NavigationTree (item_text: string) (item_kind: string) (spans: "'s list")
    (childItems: "'s NavigationTree list option")

datatype SymbolKind =
  SymbolKind_Module | SymbolKind_Class | SymbolKind_Enum | SymbolKind_Interface
  | SymbolKind_Method | SymbolKind_Property | SymbolKind_Variable | SymbolKind_Function

datatype 'r DocumentSymbol =
  DocumentSymbol (name: string) (detail: string) (symbolKind: SymbolKind)
    (fullRange: 'r) (selectionRange: 'r) (children: "'r DocumentSymbol list")

text \<open>
  The kind strings of \<^verbatim>\<open>PConst.Kind\<close> are declared in the protocol constants module,
  outside the files at hand; the functions below take the table as a parameter.
\<close>

record PConst_Kind =
  Kind_alias :: string
  Kind_module :: string
  Kind_class :: string
  Kind_enum :: string
  Kind_interface :: string
  Kind_memberFunction :: string
  Kind_memberVariable :: string
  Kind_memberGetAccessor :: string
  Kind_memberSetAccessor :: string
  Kind_variable :: string
  Kind_const :: string
  Kind_localVariable :: string
  Kind_function :: string
  Kind_localFunction :: string

text \<open>The \<^verbatim>\<open>switch\<close> takes the first matching case, in the order of the source.\<close>

definition getSymbolKind :: "PConst_Kind \<Rightarrow> string \<Rightarrow> SymbolKind" where
  "getSymbolKind K kind =
     (if kind = Kind_module K then SymbolKind_Module
      else if kind = Kind_class K then SymbolKind_Class
      else if kind = Kind_enum K then SymbolKind_Enum
      else if kind = Kind_interface K then SymbolKind_Interface
      else if kind = Kind_memberFunction K then SymbolKind_Method
      else if kind = Kind_memberVariable K then SymbolKind_Property
      else if kind = Kind_memberGetAccessor K then SymbolKind_Property
      else if kind = Kind_memberSetAccessor K then SymbolKind_Property
      else if kind = Kind_variable K then SymbolKind_Variable
      else if kind = Kind_const K then SymbolKind_Variable
      else if kind = Kind_localVariable K then SymbolKind_Variable
      else if kind = Kind_variable K then SymbolKind_Variable
      else if kind = Kind_function K then SymbolKind_Function
      else if kind = Kind_localFunction K then SymbolKind_Function
      else SymbolKind_Variable)"

section \<open>Document symbols: the filtering rule\<close>

text \<open>
  \<^verbatim>\<open>!!(item.text && item.text !== '<function>' && item.text !== '<class>')\<close>:
  \<^verbatim>\<open>a && b\<close> is \<open>a\<close> when \<open>a\<close> is falsy and \<open>b\<close> otherwise; a string is falsy exactly
  when it is empty; \<^verbatim>\<open>!!\<close> reads the truthiness.
\<close>

datatype jsval = JSString string | JSBoolean bool

fun truthy :: "jsval \<Rightarrow> bool" where
  "truthy (JSString s) = (s \<noteq> [])"
| "truthy (JSBoolean b) = b"

definition js_and :: "jsval \<Rightarrow> jsval \<Rightarrow> jsval" where
  "js_and a b = (if truthy a then b else a)"

definition shouldInclueEntry :: "PConst_Kind \<Rightarrow> 's NavigationTree \<Rightarrow> bool" where
  "shouldInclueEntry K item =
     (if item_kind item = Kind_alias K then False
      else truthy (js_and (js_and (JSString (item_text item))
                                  (JSBoolean (item_text item \<noteq> ''<function>'')))
                          (JSBoolean (item_text item \<noteq> ''<class>''))))"

section \<open>Document symbols: the conversion\<close>

text \<open>
  \<^verbatim>\<open>item.spans[0]\<close> of an empty array is \<^verbatim>\<open>undefined\<close>, and the range converter
  \<^verbatim>\<open>typeConverters.Range.fromTextSpan\<close> (declared in another module, taken here as the
  parameter \<open>fromTextSpan\<close>) reads the fields of its argument, which raises a
  \<^verbatim>\<open>TypeError\<close> on \<^verbatim>\<open>undefined\<close>. On a span that is there the converter is
  taken to return normally.
\<close>

datatype error = TypeError | Error string

definition rangeOfFirstSpan :: "('s \<Rightarrow> 'r) \<Rightarrow> 's list \<Rightarrow> error + 'r" where
  "rangeOfFirstSpan fromTextSpan sp =
     (case sp of [] \<Rightarrow> Inl TypeError | s # _ \<Rightarrow> Inr (fromTextSpan s))"

text \<open>
  The constructor call \<^verbatim>\<open>new vscode.DocumentSymbol(...)\<close> of the source. The class is
  the editor host's: its constructor stores the fields, starts with no children and then
  validates the new symbol, throwing \<^verbatim>\<open>Error('name must not be falsy')\<close> when the name
  is falsy. Its other check, that the selection range lies within the full range, is
  passed by every call of this file, which hands over the same range twice.
\<close>

definition newDocumentSymbol ::
    "string \<Rightarrow> string \<Rightarrow> SymbolKind \<Rightarrow> 'r \<Rightarrow> 'r \<Rightarrow> error + 'r DocumentSymbol" where
  "newDocumentSymbol n d k r sr =
     (if \<not> truthy (JSString n) then Inl (Error ''name must not be falsy'')
      else Inr (DocumentSymbol n d k r sr []))"

fun withChildren :: "'r DocumentSymbol \<Rightarrow> 'r DocumentSymbol list \<Rightarrow> 'r DocumentSymbol" where
  "withChildren (DocumentSymbol n d k r sr _) cs = DocumentSymbol n d k r sr cs"

text \<open>
  \<open>convertNavTree\<close> pushes into the caller's bucket and answers whether it did; the model
  takes the bucket and returns the flag with the bucket after the call. The loop over the
  children carries the flag \<open>shouldInclude\<close> and the children array of \<open>symbolInfo\<close>,
  which is the bucket of the recursive calls. The symbol is constructed before the
  filtering rule is consulted. An exception ends the whole conversion.
\<close>

fun convertNavTree ::
    "PConst_Kind \<Rightarrow> ('s \<Rightarrow> 'r) \<Rightarrow> 'r DocumentSymbol list \<Rightarrow> 's NavigationTree
       \<Rightarrow> error + (bool \<times> 'r DocumentSymbol list)"
  and convertChildItems ::
    "PConst_Kind \<Rightarrow> ('s \<Rightarrow> 'r) \<Rightarrow> bool \<times> 'r DocumentSymbol list \<Rightarrow> 's NavigationTree list
       \<Rightarrow> error + (bool \<times> 'r DocumentSymbol list)"
where
  "convertNavTree K fromTextSpan bucket (NavigationTree t k sp cs) =
     (case rangeOfFirstSpan fromTextSpan sp of
        Inl e \<Rightarrow> Inl e
      | Inr r \<Rightarrow>
          (case newDocumentSymbol t [] (getSymbolKind K k) r r of
             Inl e \<Rightarrow> Inl e
           | Inr symbolInfo \<Rightarrow>
               (let shouldInclude = shouldInclueEntry K (NavigationTree t k sp cs)
                in case (case cs of
                           None \<Rightarrow> Inr (shouldInclude, children symbolInfo)
                         | Some items \<Rightarrow>
                             convertChildItems K fromTextSpan
                               (shouldInclude, children symbolInfo) items) of
                     Inl e \<Rightarrow> Inl e
                   | Inr (shouldInclude', kids) \<Rightarrow>
                       Inr (shouldInclude',
                            if shouldInclude' then bucket @ [withChildren symbolInfo kids]
                            else bucket))))"
| "convertChildItems K fromTextSpan (shouldInclude, kids) [] = Inr (shouldInclude, kids)"
| "convertChildItems K fromTextSpan (shouldInclude, kids) (child # rest) =
     (case convertNavTree K fromTextSpan kids child of
        Inl e \<Rightarrow> Inl e
      | Inr (includedChild, kids') \<Rightarrow>
          convertChildItems K fromTextSpan (shouldInclude \<or> includedChild, kids') rest)"

text \<open>
  \<^verbatim>\<open>tree.childItems.forEach(item => convertNavTree(resource.uri, result, item))\<close>:
  the flags are dropped, the bucket is shared.
\<close>

fun convertEach ::
    "PConst_Kind \<Rightarrow> ('s \<Rightarrow> 'r) \<Rightarrow> 'r DocumentSymbol list \<Rightarrow> 's NavigationTree list
       \<Rightarrow> error + 'r DocumentSymbol list" where
  "convertEach K fromTextSpan result [] = Inr result"
| "convertEach K fromTextSpan result (item # rest) =
     (case convertNavTree K fromTextSpan result item of
        Inl e \<Rightarrow> Inl e
      | Inr (_, result') \<Rightarrow> convertEach K fromTextSpan result' rest)"

text \<open>
  The service client is the host's. \<open>toPath\<close> answers a path or nothing; the awaited
  \<open>execute\<close> either throws (the promise rejects, which is also how a cancelled request
  ends) or yields a response whose body may be missing.
\<close>

datatype RejectReason = ServerError | Cancelled

datatype 's ExecuteOutcome = Rejects RejectReason | Resolves "'s NavigationTree option"

record ('u, 'tok, 's) ITypeScriptServiceClient =
  toPath :: "'u \<Rightarrow> string option"
  execute :: "string \<Rightarrow> string \<Rightarrow> 'tok \<Rightarrow> 's ExecuteOutcome"

text \<open>
  The result is \<open>Inr None\<close> for \<^verbatim>\<open>undefined\<close>, \<open>Inr (Some symbols)\<close> for an array and
  \<open>Inl e\<close> when the returned promise rejects with \<open>e\<close>. \<^verbatim>\<open>!file\<close> holds for a missing
  path and for the empty string. Only the remote call sits inside the \<^verbatim>\<open>try\<close> block.
\<close>

definition provideDocumentSymbols ::
    "PConst_Kind \<Rightarrow> ('s \<Rightarrow> 'r) \<Rightarrow> ('u, 'tok, 's) ITypeScriptServiceClient \<Rightarrow> 'u \<Rightarrow> 'tok
       \<Rightarrow> error + 'r DocumentSymbol list option" where
  "provideDocumentSymbols K fromTextSpan client uri token =
     (case toPath client uri of
        None \<Rightarrow> Inr None
      | Some file \<Rightarrow>
          if \<not> truthy (JSString file) then Inr None
          else (case execute client ''navtree'' file token of
                  Rejects _ \<Rightarrow> Inr None
                | Resolves None \<Rightarrow> Inr None
                | Resolves (Some tree) \<Rightarrow>
                    (case childItems tree of
                       None \<Rightarrow> Inr None
                     | Some items \<Rightarrow>
                         (case convertEach K fromTextSpan [] items of
                            Inl e \<Rightarrow> Inl e
                          | Inr result \<Rightarrow> Inr (Some result)))))"

section \<open>Document symbols: notions used to state the properties\<close>

text \<open>Every node of the tree carries at least one span.\<close>

fun wellSpanned :: "'s NavigationTree \<Rightarrow> bool" where
  "wellSpanned (NavigationTree t k sp cs) =
     (sp \<noteq> [] \<and> (case cs of None \<Rightarrow> True | Some items \<Rightarrow> list_all wellSpanned items))"

text \<open>Every node of the tree carries a label that is not empty.\<close>

fun wellLabelled :: "'s NavigationTree \<Rightarrow> bool" where
  "wellLabelled (NavigationTree t k sp cs) =
     (t \<noteq> [] \<and> (case cs of None \<Rightarrow> True | Some items \<Rightarrow> list_all wellLabelled items))"

text \<open>
  The exception the conversion meets first, if any: the nodes are visited parent first,
  children in their order, and at each node the span is read before the symbol is
  constructed.
\<close>

fun firstError :: "'s NavigationTree \<Rightarrow> error option"
  and firstErrorIn :: "'s NavigationTree list \<Rightarrow> error option"
where
  "firstError (NavigationTree t k sp cs) =
     (if sp = [] then Some TypeError
      else if t = [] then Some (Error ''name must not be falsy'')
      else (case cs of None \<Rightarrow> None | Some items \<Rightarrow> firstErrorIn items))"
| "firstErrorIn [] = None"
| "firstErrorIn (child # rest) =
     (case firstError child of Some e \<Rightarrow> Some e | None \<Rightarrow> firstErrorIn rest)"

text \<open>The node passes the filtering rule itself, or a node below it does.\<close>

fun retained :: "PConst_Kind \<Rightarrow> 's NavigationTree \<Rightarrow> bool" where
  "retained K (NavigationTree t k sp cs) =
     (shouldInclueEntry K (NavigationTree t k sp cs)
      \<or> (case cs of None \<Rightarrow> False | Some items \<Rightarrow> list_ex (retained K) items))"

text \<open>
  The child nodes of a node, the nodes strictly below a node and the symbols at or below
  a symbol, parents before children and siblings in their order.
\<close>

definition childList :: "'s NavigationTree \<Rightarrow> 's NavigationTree list" where
  "childList item = (case childItems item of None \<Rightarrow> [] | Some items \<Rightarrow> items)"

fun descendants :: "'s NavigationTree \<Rightarrow> 's NavigationTree list" where
  "descendants (NavigationTree t k sp cs) =
     (case cs of None \<Rightarrow> [] | Some items \<Rightarrow> concat (map (\<lambda>c. c # descendants c) items))"

fun symbols :: "'r DocumentSymbol \<Rightarrow> 'r DocumentSymbol list" where
  "symbols (DocumentSymbol n d k r sr cs) =
     DocumentSymbol n d k r sr cs # concat (map symbols cs)"

text \<open>The tree with every span but the first one of each node removed.\<close>

fun firstSpanOnly :: "'s NavigationTree \<Rightarrow> 's NavigationTree" where
  "firstSpanOnly (NavigationTree t k sp cs) =
     NavigationTree t k (take 1 sp) (map_option (map firstSpanOnly) cs)"

text \<open>
  The symbols a node contributes, as a function of the node alone: none when nothing at or
  below it passes the filtering rule, otherwise the node's own symbol over the symbols of
  its children.
\<close>

fun symbolsOf :: "PConst_Kind \<Rightarrow> ('s \<Rightarrow> 'r) \<Rightarrow> 's NavigationTree \<Rightarrow> 'r DocumentSymbol list" where
  "symbolsOf K fromTextSpan (NavigationTree t k sp cs) =
     (if retained K (NavigationTree t k sp cs)
      then [DocumentSymbol t [] (getSymbolKind K k) (fromTextSpan (hd sp)) (fromTextSpan (hd sp))
              (case cs of None \<Rightarrow> [] | Some items \<Rightarrow> concat (map (symbolsOf K fromTextSpan) items))]
      else [])"

section \<open>Quick pick keybindings\<close>

text \<open>
  The modifier masks of \<^verbatim>\<open>KeyMod\<close> and the platform flag \<^verbatim>\<open>isMacintosh\<close> are
  imported from other modules; both are parameters here. Chords are small integers and
  are combined with \<^verbatim>\<open>+\<close>, which is exact on them.
\<close>

record KeyMod =
  KeyMod_CtrlCmd :: int
  KeyMod_Alt :: int
  KeyMod_WinCtrl :: int

record ModOptions =
  withAltMod :: "bool option"
  withCtrlMod :: "bool option"
  withCmdMod :: "bool option"

text \<open>An option that was not given is \<^verbatim>\<open>undefined\<close>, which is falsy.\<close>

fun isSet :: "bool option \<Rightarrow> bool" where
  "isSet None = False"
| "isSet (Some b) = b"

text \<open>The default value \<^verbatim>\<open>{}\<close> of the \<open>options\<close> parameter.\<close>

definition noOptions :: ModOptions where
  "noOptions = \<lparr>withAltMod = None, withCtrlMod = None, withCmdMod = None\<rparr>"

text \<open>
  Each \<^verbatim>\<open>secondary.push(c)\<close> appends to the array that was passed in; the function
  returns that same array.
\<close>

definition getSecondary :: "KeyMod \<Rightarrow> bool \<Rightarrow> int \<Rightarrow> int list \<Rightarrow> ModOptions \<Rightarrow> int list" where
  "getSecondary KM isMacintosh primary secondary options =
     (let secondary1 =
            (if isSet (withAltMod options) then secondary @ [KeyMod_Alt KM + primary]
             else secondary);
          ctrlKeyMod = (if isMacintosh then KeyMod_WinCtrl KM else KeyMod_CtrlCmd KM);
          secondary2 =
            (if isSet (withCtrlMod options) then
               (let pushed = secondary1 @ [ctrlKeyMod + primary]
                in if isSet (withAltMod options)
                   then pushed @ [KeyMod_Alt KM + ctrlKeyMod + primary]
                   else pushed)
             else secondary1);
          secondary3 =
            (if isSet (withCmdMod options) \<and> isMacintosh then
               (let cmd = secondary2 @ [KeyMod_CtrlCmd KM + primary];
                    cmdCtrl =
                      (if isSet (withCtrlMod options)
                       then cmd @ [KeyMod_CtrlCmd KM + KeyMod_WinCtrl KM + primary]
                       else cmd)
                in if isSet (withAltMod options) then
                     (let cmdAlt = cmdCtrl @ [KeyMod_CtrlCmd KM + KeyMod_Alt KM + primary]
                      in if isSet (withCtrlMod options)
                         then cmdAlt @ [KeyMod_CtrlCmd KM + KeyMod_Alt KM + KeyMod_WinCtrl KM + primary]
                         else cmdAlt)
                   else cmdCtrl)
             else secondary2)
      in secondary3)"

text \<open>
  A rule as the callers of this file write it: the command id, the primary chord (always
  given here, the source asserts it with \<^verbatim>\<open>!\<close>) and an optional list of secondary
  chords. Weight, context condition, metadata and handler are copied through unchanged
  and are left out. The registry is the list of rules registered so far.
\<close>

record QuickPickRule =
  rule_id :: string
  rule_primary :: int
  rule_secondary :: "int list option"

definition registerQuickPickCommandAndKeybindingRule ::
    "KeyMod \<Rightarrow> bool \<Rightarrow> QuickPickRule \<Rightarrow> ModOptions \<Rightarrow> QuickPickRule list \<Rightarrow> QuickPickRule list" where
  "registerQuickPickCommandAndKeybindingRule KM isMacintosh rule options registry =
     registry @
       [rule\<lparr>rule_secondary :=
               Some (getSecondary KM isMacintosh (rule_primary rule)
                       (case rule_secondary rule of None \<Rightarrow> [] | Some s \<Rightarrow> s) options)\<rparr>]"

text \<open>
  The table of the specification: the seven modifier combinations in the order in which
  they are generated, each with the flags it needs. The command modifier counts as set
  only on the Macintosh platform.
\<close>

datatype Modifier = Alt | Ctrl | Cmd

definition combinations :: "Modifier list list" where
  "combinations =
     [[Alt], [Ctrl], [Alt, Ctrl], [Cmd], [Cmd, Ctrl], [Cmd, Alt], [Cmd, Alt, Ctrl]]"

fun modifierSet :: "bool \<Rightarrow> ModOptions \<Rightarrow> Modifier \<Rightarrow> bool" where
  "modifierSet isMacintosh options Alt = isSet (withAltMod options)"
| "modifierSet isMacintosh options Ctrl = isSet (withCtrlMod options)"
| "modifierSet isMacintosh options Cmd = (isSet (withCmdMod options) \<and> isMacintosh)"

fun modifierMask :: "KeyMod \<Rightarrow> bool \<Rightarrow> Modifier \<Rightarrow> int" where
  "modifierMask KM isMacintosh Alt = KeyMod_Alt KM"
| "modifierMask KM isMacintosh Ctrl = (if isMacintosh then KeyMod_WinCtrl KM else KeyMod_CtrlCmd KM)"
| "modifierMask KM isMacintosh Cmd = KeyMod_CtrlCmd KM"

definition chord :: "KeyMod \<Rightarrow> bool \<Rightarrow> int \<Rightarrow> Modifier list \<Rightarrow> int" where
  "chord KM isMacintosh primary ms = sum_list (map (modifierMask KM isMacintosh) ms) + primary"

definition generated :: "KeyMod \<Rightarrow> bool \<Rightarrow> int \<Rightarrow> ModOptions \<Rightarrow> int list" where
  "generated KM isMacintosh primary options =
     map (chord KM isMacintosh primary)
       (filter (list_all (modifierSet isMacintosh options)) combinations)"

text \<open>
  Sample values for evaluating concrete calls: the kind strings of the TypeScript server
  protocol, the modifier masks as distinct bits, and two key codes.
\<close>

definition sampleKinds :: PConst_Kind where
  "sampleKinds =
     \<lparr>Kind_alias = ''alias'', Kind_module = ''module'', Kind_class = ''class'',
      Kind_enum = ''enum'', Kind_interface = ''interface'', Kind_memberFunction = ''method'',
      Kind_memberVariable = ''property'', Kind_memberGetAccessor = ''getter'',
      Kind_memberSetAccessor = ''setter'', Kind_variable = ''var'', Kind_const = ''const'',
      Kind_localVariable = ''local var'', Kind_function = ''function'',
      Kind_localFunction = ''local function''\<rparr>"

definition sampleKeyMod :: KeyMod where
  "sampleKeyMod = \<lparr>KeyMod_CtrlCmd = 2048, KeyMod_Alt = 512, KeyMod_WinCtrl = 256\<rparr>"

definition allMods :: ModOptions where
  "allMods = \<lparr>withAltMod = Some True, withCtrlMod = Some True, withCmdMod = Some True\<rparr>"

text \<open>
  What a symbol shows of itself, apart from its children, and what a node's symbol has to
  show: the node's label, the kind its kind string maps to, and the converted first span
  as both ranges. \<open>emitted\<close> lists what the symbols of an output show, and
  \<open>keptNodes\<close> the nodes of a tree at or above a node that passes the filtering rule.
\<close>

definition header :: "'r DocumentSymbol \<Rightarrow> string \<times> SymbolKind \<times> 'r \<times> 'r" where
  "header s = (name s, symbolKind s, fullRange s, selectionRange s)"

definition nodeHeader ::
    "PConst_Kind \<Rightarrow> ('s \<Rightarrow> 'r) \<Rightarrow> 's NavigationTree \<Rightarrow> string \<times> SymbolKind \<times> 'r \<times> 'r" where
  "nodeHeader K fromTextSpan item =
     (item_text item, getSymbolKind K (item_kind item),
      fromTextSpan (hd (spans item)), fromTextSpan (hd (spans item)))"

definition emitted :: "'r DocumentSymbol list \<Rightarrow> (string \<times> SymbolKind \<times> 'r \<times> 'r) list" where
  "emitted out = map header (concat (map symbols out))"

definition keptNodes :: "PConst_Kind \<Rightarrow> 's NavigationTree \<Rightarrow> 's NavigationTree list" where
  "keptNodes K tree = filter (retained K) (tree # descendants tree)"

text \<open>
  Sample navigation trees, with spans named by numbers, and a client whose remote call
  always ends the same way.
\<close>

definition functionOverX :: "nat NavigationTree" where
  "functionOverX =
     NavigationTree ''<function>'' ''function'' [1]
       (Some [NavigationTree ''x'' ''var'' [2] None])"

definition aliasOverY :: "nat NavigationTree" where
  "aliasOverY =
     NavigationTree ''a'' ''alias'' [3] (Some [NavigationTree ''y'' ''var'' [4] None])"

definition outerOverFunction :: "nat NavigationTree" where
  "outerOverFunction = NavigationTree ''outer'' ''function'' [5] (Some [functionOverX])"

definition moduleOverAlias :: "nat NavigationTree" where
  "moduleOverAlias = NavigationTree ''m'' ''module'' [6] (Some [aliasOverY])"

definition twoSpans :: "nat NavigationTree" where
  "twoSpans = NavigationTree ''f'' ''function'' [7, 8] None"

definition noSpans :: "nat NavigationTree" where
  "noSpans = NavigationTree ''g'' ''function'' [] None"


definition fileRoot :: "nat NavigationTree list \<Rightarrow> nat NavigationTree" where
  "fileRoot items = NavigationTree ''<global>'' ''script'' [0] (Some items)"

definition answering :: "'s ExecuteOutcome \<Rightarrow> (string, unit, 's) ITypeScriptServiceClient" where
  "answering outcome =
     \<lparr>toPath = (\<lambda>uri. Some uri), execute = (\<lambda>command file token. outcome)\<rparr>"

section \<open>Properties of the array primitives\<close>

lemma indexOfFrom_absent: "v \<notin> set xs \<Longrightarrow> indexOfFrom i xs v = -1"
  by (induction xs arbitrary: i) auto

lemma indexOfFrom_present:
  "v \<in> set xs \<Longrightarrow> 0 \<le> i \<Longrightarrow>
     i \<le> indexOfFrom i xs v \<and> indexOfFrom i xs v < i + int (length xs) \<and>
     xs ! nat (indexOfFrom i xs v - i) = v \<and>
     v \<notin> set (take (nat (indexOfFrom i xs v - i)) xs)"
proof (induction xs arbitrary: i)
  case Nil
  then show ?case by simp
next
  case (Cons x xs)
  show ?case
  proof (cases "x = v")
    case True
    then show ?thesis by simp
  next
    case False
    with Cons.prems have mem: "v \<in> set xs" by simp
    from Cons.prems have pos: "0 \<le> i + 1" by simp
    note ih = Cons.IH [OF mem pos]
    define j where "j = indexOfFrom (i + 1) xs v"
    from ih have b: "i + 1 \<le> j" "j < i + 1 + int (length xs)"
      and at: "xs ! nat (j - (i + 1)) = v"
      and pre: "v \<notin> set (take (nat (j - (i + 1))) xs)"
      by (simp_all add: j_def)
    from b have n: "nat (j - i) = Suc (nat (j - (i + 1)))" by linarith
    from False b at pre n show ?thesis
      by (simp add: j_def [symmetric])
  qed
qed

lemma splice_at_index:
  "n < length xs \<Longrightarrow> splice xs (int n) 1 = take n xs @ drop (Suc n) xs"
  by (simp add: splice_def Let_def nat_add_distrib)

lemma splice_minus_one:
  "splice xs (-1) 1 = butlast xs"
proof (cases "xs = []")
  case True
  then show ?thesis by (simp add: splice_def)
next
  case False
  then have len: "0 < length xs" by simp
  then have "nat (int (length xs) - 1) = length xs - 1" by simp
  with len show ?thesis
    by (simp add: splice_def Let_def butlast_conv_take)
qed

lemma remove1_first_occurrence:
  "n < length xs \<Longrightarrow> xs ! n = v \<Longrightarrow> v \<notin> set (take n xs) \<Longrightarrow>
     remove1 v xs = take n xs @ drop (Suc n) xs"
proof (induction xs arbitrary: n)
  case Nil
  then show ?case by simp
next
  case (Cons x xs)
  then show ?case by (cases n) auto
qed

lemma dispose_present:
  assumes "p \<in> set (themingParticipants reg)"
  shows "themingParticipants (dispose (Disposable p) reg) = remove1 p (themingParticipants reg)"
proof -
  let ?xs = "themingParticipants reg"
  define j where "j = indexOf ?xs p"
  from indexOfFrom_present [OF assms, of 0]
  have b: "0 \<le> j" "j < int (length ?xs)" and at: "?xs ! nat j = p"
    and pre: "p \<notin> set (take (nat j) ?xs)"
    by (simp_all add: j_def indexOf_def)
  from b have lt: "nat j < length ?xs" by linarith
  from b have "splice ?xs j 1 = splice ?xs (int (nat j)) 1" by simp
  also have "\<dots> = take (nat j) ?xs @ drop (Suc (nat j)) ?xs"
    by (rule splice_at_index [OF lt])
  also have "\<dots> = remove1 p ?xs"
    by (rule remove1_first_occurrence [OF lt at pre, symmetric])
  finally show ?thesis by (simp add: j_def Let_def)
qed

lemma dispose_absent:
  assumes "p \<notin> set (themingParticipants reg)"
  shows "themingParticipants (dispose (Disposable p) reg) = butlast (themingParticipants reg)"
  using assms by (simp add: indexOf_def indexOfFrom_absent splice_minus_one)

section \<open>The theming registry: disposal\<close>

text \<open>
  Claim C3. The first call of a handle's \<open>dispose\<close> removes one occurrence of its
  participant (the first one), as \<open>dispose_present\<close> shows. A further call of the same
  handle is meant to change nothing, but \<open>indexOf\<close> then answers \<open>-1\<close> and
  \<open>splice (-1) 1\<close> removes the last entry of the list (\<open>dispose_absent\<close>). Below, a
  fresh registry receives participants \<open>1\<close> and \<open>2\<close>; the handle of \<open>1\<close> is
  disposed twice, and the second call removes participant \<open>2\<close>.
\<close>

theorem second_dispose_removes_another_participant:
  "onThemeChange (1::nat) newThemingRegistry = (Disposable 1, \<lparr>themingParticipants = [1]\<rparr>)
   \<and> onThemeChange (2::nat) \<lparr>themingParticipants = [1]\<rparr>
         = (Disposable 2, \<lparr>themingParticipants = [1, 2]\<rparr>)
   \<and> dispose (Disposable (1::nat)) \<lparr>themingParticipants = [1, 2]\<rparr>
         = \<lparr>themingParticipants = [2]\<rparr>
   \<and> dispose (Disposable (1::nat)) \<lparr>themingParticipants = [2]\<rparr>
         = \<lparr>themingParticipants = []\<rparr>"
  by (simp add: onThemeChange_def newThemingRegistry_def indexOf_def splice_def)

text \<open>
  Claim C4, as the code has it. Registering a participant and disposing the returned
  handle at once removes the first occurrence of that participant from the extended
  list. The participants and their multiplicities are those from before the
  registration; the list itself is the one from before when the participant was not
  registered already.
\<close>

theorem register_then_dispose:
  assumes "onThemeChange participant reg = (h, reg')"
  shows "getThemingParticipants (dispose h reg') =
           remove1 participant (getThemingParticipants reg @ [participant])
       \<and> mset (getThemingParticipants (dispose h reg')) = mset (getThemingParticipants reg)
       \<and> (participant \<notin> set (getThemingParticipants reg) \<longrightarrow>
            getThemingParticipants (dispose h reg') = getThemingParticipants reg)"
proof -
  from assms have h: "h = Disposable participant"
    and r: "themingParticipants reg' = themingParticipants reg @ [participant]"
    by (auto simp: onThemeChange_def)
  from r have "participant \<in> set (themingParticipants reg')" by simp
  from dispose_present [OF this] h r
  have eq: "getThemingParticipants (dispose h reg') =
           remove1 participant (getThemingParticipants reg @ [participant])"
    by (simp add: getThemingParticipants_def)
  then show ?thesis by (auto simp: remove1_append)
qed

theorem register_then_dispose_witness:
  "onThemeChange (3::nat) \<lparr>themingParticipants = [1, 2]\<rparr>
      = (Disposable 3, \<lparr>themingParticipants = [1, 2, 3]\<rparr>)
   \<and> getThemingParticipants (dispose (Disposable 3) \<lparr>themingParticipants = [1, 2, 3::nat]\<rparr>)
      = [1, 2]"
proof -
  have r: "onThemeChange (3::nat) \<lparr>themingParticipants = [1, 2]\<rparr>
      = (Disposable 3, \<lparr>themingParticipants = [1, 2, 3]\<rparr>)"
    by (simp add: onThemeChange_def)
  from register_then_dispose [OF r] r show ?thesis
    by (simp add: getThemingParticipants_def)
qed

text \<open>
  With participant \<open>1\<close> registered ahead of participant \<open>2\<close>, registering \<open>1\<close> once
  more and disposing the new handle removes the old entry at the front: the list is
  \<open>[2, 1]\<close> where it was \<open>[1, 2]\<close>.
\<close>

theorem register_then_dispose_counterexample:
  "getThemingParticipants
     (dispose (fst (onThemeChange (1::nat) \<lparr>themingParticipants = [1, 2]\<rparr>))
              (snd (onThemeChange (1::nat) \<lparr>themingParticipants = [1, 2]\<rparr>))) = [2, 1]
   \<and> getThemingParticipants \<lparr>themingParticipants = [1::nat, 2]\<rparr> = [1, 2]"
  by (simp add: onThemeChange_def getThemingParticipants_def indexOf_def splice_def)

section \<open>Document symbols: what the conversion computes\<close>

text \<open>
  The conversion ends with the first exception on its way, if there is one. Otherwise
  the flag says whether the node or something below it passes the filtering rule, and the
  bucket grows by the symbols of the node.
\<close>

lemma convert_result:
  "convertNavTree K f bucket item =
     (case firstError item of
        Some e \<Rightarrow> Inl e
      | None \<Rightarrow> Inr (retained K item, bucket @ symbolsOf K f item))"
  "convertChildItems K f st items =
     (case firstErrorIn items of
        Some e \<Rightarrow> Inl e
      | None \<Rightarrow> Inr (fst st \<or> list_ex (retained K) items,
                     snd st @ concat (map (symbolsOf K f) items)))"
proof (induction K f bucket item and K f st items rule: convertNavTree_convertChildItems.induct)
  case (1 K f bucket t k sp cs)
  show ?case
  proof (cases sp)
    case Nil
    then show ?thesis by (simp add: rangeOfFirstSpan_def)
  next
    case (Cons s ss)
    then have r: "rangeOfFirstSpan f sp = Inr (f s)"
      by (simp add: rangeOfFirstSpan_def)
    show ?thesis
    proof (cases "t = []")
      case True
      with Cons show ?thesis
        by (simp add: rangeOfFirstSpan_def newDocumentSymbol_def)
    next
      case False
      then have n: "newDocumentSymbol t [] (getSymbolKind K k) (f s) (f s) =
          Inr (DocumentSymbol t [] (getSymbolKind K k) (f s) (f s) [])"
        by (simp add: newDocumentSymbol_def)
      show ?thesis
      proof (cases cs)
        case None
        with Cons False show ?thesis
          by (simp add: rangeOfFirstSpan_def newDocumentSymbol_def)
      next
        case (Some items)
        note ih = "1.IH" [OF r n refl Some]
        show ?thesis
        proof (cases "firstErrorIn items")
          case None
          with ih Some Cons False show ?thesis
            by (simp add: rangeOfFirstSpan_def newDocumentSymbol_def)
        next
          case (Some e)
          with ih \<open>cs = Some items\<close> Cons False show ?thesis
            by (simp add: rangeOfFirstSpan_def newDocumentSymbol_def)
        qed
      qed
    qed
  qed
next
  case (2 K f inc kids)
  then show ?case by simp
next
  case (3 K f inc kids child rest)
  then show ?case by (auto split: option.splits)
qed

lemma convert_ok:
  "firstError item = None \<Longrightarrow>
     convertNavTree K f bucket item = Inr (retained K item, bucket @ symbolsOf K f item)"
  by (simp add: convert_result)

lemma convert_fails:
  "firstError item = Some e \<Longrightarrow> convertNavTree K f bucket item = Inl e"
  by (simp add: convert_result)

lemma convertEach_result:
  "convertEach K f result items =
     (case firstErrorIn items of
        Some e \<Rightarrow> Inl e
      | None \<Rightarrow> Inr (result @ concat (map (symbolsOf K f) items)))"
  by (induction items arbitrary: result) (auto simp: convert_result split: option.splits)

lemma firstError_None_iff:
  "firstError (item :: 's NavigationTree) = None \<longleftrightarrow> wellSpanned item \<and> wellLabelled item"
  "firstErrorIn (items :: 's NavigationTree list) = None \<longleftrightarrow> list_all wellSpanned items \<and> list_all wellLabelled items"
proof (induction item and items rule: firstError_firstErrorIn.induct)
  case (1 t k sp cs)
  then show ?case by (cases cs) auto
next
  case 2
  then show ?case by simp
next
  case (3 child rest)
  then show ?case by (auto split: option.splits)
qed

lemma firstError_TypeError:
  "firstError (item :: 's NavigationTree) = Some TypeError \<Longrightarrow> \<not> wellSpanned item"
  "firstErrorIn (items :: 's NavigationTree list) = Some TypeError \<Longrightarrow> \<not> list_all wellSpanned items"
proof (induction item and items rule: firstError_firstErrorIn.induct)
  case (1 t k sp cs)
  then show ?case by (cases cs) (auto split: if_splits)
next
  case 2
  then show ?case by simp
next
  case (3 child rest)
  then show ?case by (auto split: option.splits)
qed

lemma firstError_labelled:
  "wellLabelled (item :: 's NavigationTree) \<Longrightarrow> firstError item = Some e \<Longrightarrow> e = TypeError"
  "list_all wellLabelled (items :: 's NavigationTree list) \<Longrightarrow> firstErrorIn items = Some e \<Longrightarrow> e = TypeError"
proof (induction item and items rule: firstError_firstErrorIn.induct)
  case (1 t k sp cs)
  then show ?case by (cases cs) (auto split: if_splits)
next
  case 2
  then show ?case by simp
next
  case (3 child rest)
  then show ?case by (auto split: option.splits)
qed

lemma retained_iff:
  "retained K item \<longleftrightarrow> shouldInclueEntry K item \<or> list_ex (shouldInclueEntry K) (descendants item)"
proof (induction item rule: descendants.induct)
  case (1 t k sp cs)
  show ?case
  proof (cases cs)
    case None
    then show ?thesis by simp
  next
    case (Some items)
    with 1 have ih: "\<And>c. c \<in> set items \<Longrightarrow>
        retained K c = (shouldInclueEntry K c \<or> list_ex (shouldInclueEntry K) (descendants c))"
      by simp
    from Some ih show ?thesis
      by (auto simp: list_ex_iff)
  qed
qed

lemma wellSpanned_descendants:
  "wellSpanned item \<Longrightarrow> d \<in> set (descendants item) \<Longrightarrow> wellSpanned d"
proof (induction item rule: descendants.induct)
  case (1 t k sp cs)
  then show ?case
    by (cases cs) (auto simp: list_all_iff)
qed

lemma retained_descendant:
  "d \<in> set (descendants item) \<Longrightarrow> retained K d \<Longrightarrow> retained K item"
proof (induction item rule: descendants.induct)
  case (1 t k sp cs)
  then show ?case
    by (cases cs) (auto simp: list_ex_iff)
qed

lemma symbolsOf_retained:
  "retained K item \<Longrightarrow>
     symbolsOf K f item =
       [DocumentSymbol (item_text item) [] (getSymbolKind K (item_kind item))
          (f (hd (spans item))) (f (hd (spans item)))
          (case childItems item of None \<Rightarrow> [] | Some items \<Rightarrow> concat (map (symbolsOf K f) items))]"
  by (cases item) simp

lemma symbolsOf_not_retained: "\<not> retained K item \<Longrightarrow> symbolsOf K f item = []"
  by (cases item) simp

lemma symbols_self: "s \<in> set (symbols s)"
  by (cases s) simp

lemma symbolsOf_descendant:
  "d \<in> set (descendants item) \<Longrightarrow> s \<in> set (symbolsOf K f d) \<Longrightarrow>
     \<exists>top. symbolsOf K f item = [top] \<and> s \<in> set (concat (map symbols (children top)))"
proof (induction item rule: descendants.induct)
  case (1 t k sp cs)
  have rd: "retained K d"
  proof (rule ccontr)
    assume "\<not> retained K d"
    then have "symbolsOf K f d = []" by (rule symbolsOf_not_retained)
    with "1.prems"(2) show False by simp
  qed
  with "1.prems" have ri: "retained K (NavigationTree t k sp cs)"
    using retained_descendant by blast
  from "1.prems" obtain items c where cs: "cs = Some items" and c: "c \<in> set items"
    and dc: "d = c \<or> d \<in> set (descendants c)"
    by (cases cs) auto
  let ?kids = "concat (map (symbolsOf K f) items)"
  have top: "symbolsOf K f (NavigationTree t k sp cs) =
      [DocumentSymbol t [] (getSymbolKind K k) (f (hd sp)) (f (hd sp)) ?kids]"
    using ri cs symbolsOf_retained [OF ri, of f] by simp
  have "s \<in> set (concat (map symbols ?kids))"
  proof (cases "d = c")
    case True
    with "1.prems" c have "s \<in> set ?kids" by auto
    then show ?thesis using symbols_self by fastforce
  next
    case False
    with dc have d': "d \<in> set (descendants c)" by simp
    from "1.IH" [OF cs c d' "1.prems"(2)] obtain ctop where
      ctop: "symbolsOf K f c = [ctop]" and s: "s \<in> set (concat (map symbols (children ctop)))"
      by blast
    from s have "s \<in> set (symbols ctop)" by (cases ctop) auto
    moreover from ctop c have "ctop \<in> set ?kids" by force
    ultimately show ?thesis by auto
  qed
  with top show ?case by simp
qed

lemma retained_firstSpanOnly: "retained K (firstSpanOnly item) = retained K item"
proof (induction item rule: firstSpanOnly.induct)
  case (1 t k sp cs)
  have "shouldInclueEntry K (NavigationTree t k (take 1 sp) (map_option (map firstSpanOnly) cs))
      = shouldInclueEntry K (NavigationTree t k sp cs)"
    by (simp add: shouldInclueEntry_def)
  with 1 show ?case
    by (cases cs) (auto simp: list_ex_iff)
qed

lemma hd_take_1: "hd (take 1 sp) = hd sp"
  by (cases sp) simp_all

lemma symbolsOf_firstSpanOnly: "symbolsOf K f (firstSpanOnly item) = symbolsOf K f item"
proof (induction item rule: firstSpanOnly.induct)
  case (1 t k sp cs)
  have r: "retained K (NavigationTree t k (take 1 sp) (map_option (map firstSpanOnly) cs))
      = retained K (NavigationTree t k sp cs)"
    using retained_firstSpanOnly [of K "NavigationTree t k sp cs"] by simp
  have kids: "(case map_option (map firstSpanOnly) cs of None \<Rightarrow> []
               | Some items \<Rightarrow> concat (map (symbolsOf K f) items))
            = (case cs of None \<Rightarrow> [] | Some items \<Rightarrow> concat (map (symbolsOf K f) items))"
  proof (cases cs)
    case None
    then show ?thesis by simp
  next
    case (Some items)
    with 1 have "map (symbolsOf K f \<circ> firstSpanOnly) items = map (symbolsOf K f) items"
      by simp
    with Some show ?thesis by (simp del: map_eq_conv)
  qed
  show ?case
    unfolding firstSpanOnly.simps symbolsOf.simps r kids hd_take_1 ..
qed

lemma wellLabelled_descendants:
  "wellLabelled item \<Longrightarrow> d \<in> set (descendants item) \<Longrightarrow> wellLabelled d"
proof (induction item rule: descendants.induct)
  case (1 t k sp cs)
  then show ?case
    by (cases cs) (auto simp: list_all_iff)
qed

lemma firstError_node:
  assumes "wellSpanned tree" and "wellLabelled tree" and "n \<in> set (tree # descendants tree)"
  shows "firstError tree = None" and "firstError n = None"
proof -
  from assms(1,2) show "firstError tree = None" by (simp add: firstError_None_iff)
  from assms have "wellSpanned n \<and> wellLabelled n"
    using wellSpanned_descendants wellLabelled_descendants by auto
  then show "firstError n = None" by (simp add: firstError_None_iff)
qed

lemma not_retained_subtree:
  "\<not> retained K n \<Longrightarrow> m \<in> set (n # descendants n) \<Longrightarrow> \<not> retained K m"
  using retained_descendant by auto

lemma symbolsOf_in_output:
  assumes "n \<in> set (tree # descendants tree)" and "s \<in> set (symbolsOf K f n)"
  shows "s \<in> set (concat (map symbols (symbolsOf K f tree)))"
proof (cases "n = tree")
  case True
  with assms(2) show ?thesis using symbols_self by fastforce
next
  case False
  with assms(1) have "n \<in> set (descendants tree)" by simp
  from symbolsOf_descendant [OF this assms(2)] obtain out where
    out: "symbolsOf K f tree = [out]" and s: "s \<in> set (concat (map symbols (children out)))"
    by blast
  from s have "s \<in> set (symbols out)" by (cases out) auto
  with out show ?thesis by simp
qed

lemma emitted_children:
  "(\<And>c. c \<in> set items \<Longrightarrow> emitted (symbolsOf K f c) = map (nodeHeader K f) (keptNodes K c)) \<Longrightarrow>
     emitted (concat (map (symbolsOf K f) items)) =
       map (nodeHeader K f) (filter (retained K) (concat (map (\<lambda>c. c # descendants c) items)))"
proof (induction items)
  case Nil
  then show ?case by (simp add: emitted_def)
next
  case (Cons c items)
  from Cons.prems have c: "emitted (symbolsOf K f c) = map (nodeHeader K f) (keptNodes K c)"
    by simp
  from Cons have rest: "emitted (concat (map (symbolsOf K f) items)) =
       map (nodeHeader K f) (filter (retained K) (concat (map (\<lambda>c. c # descendants c) items)))"
    by simp
  have "emitted (concat (map (symbolsOf K f) (c # items))) =
      emitted (symbolsOf K f c) @ emitted (concat (map (symbolsOf K f) items))"
    by (simp add: emitted_def)
  also have "\<dots> = map (nodeHeader K f) (keptNodes K c) @
      map (nodeHeader K f) (filter (retained K) (concat (map (\<lambda>c. c # descendants c) items)))"
    by (simp only: c rest)
  also have "\<dots> = map (nodeHeader K f)
      (filter (retained K) (concat (map (\<lambda>c. c # descendants c) (c # items))))"
    by (simp add: keptNodes_def del: retained.simps)
  finally show ?case .
qed

lemma emitted_symbolsOf:
  "emitted (symbolsOf K f item) = map (nodeHeader K f) (keptNodes K item)"
proof (induction item rule: descendants.induct)
  case (1 t k sp cs)
  let ?n = "NavigationTree t k sp cs"
  show ?case
  proof (cases "retained K ?n")
    case False
    then have "\<forall>m \<in> set (?n # descendants ?n). \<not> retained K m"
      using not_retained_subtree by blast
    then have "keptNodes K ?n = []"
      unfolding keptNodes_def filter_empty_conv by blast
    moreover from False have "symbolsOf K f ?n = []" by (rule symbolsOf_not_retained)
    ultimately show ?thesis by (simp add: emitted_def)
  next
    case True
    note top = symbolsOf_retained [OF True, of f]
    show ?thesis
    proof (cases cs)
      case None
      with True top show ?thesis
        by (simp add: emitted_def keptNodes_def header_def nodeHeader_def del: retained.simps)
    next
      case (Some items)
      from "1.IH" [OF Some]
      have "emitted (concat (map (symbolsOf K f) items)) =
         map (nodeHeader K f) (filter (retained K) (concat (map (\<lambda>c. c # descendants c) items)))"
        by (rule emitted_children)
      with True top Some show ?thesis
        by (simp add: emitted_def keptNodes_def header_def nodeHeader_def del: retained.simps)
    qed
  qed
qed

lemma firstError_firstSpanOnly:
  "firstError (firstSpanOnly item) = firstError (item :: 's NavigationTree)"
  "firstErrorIn (map firstSpanOnly items) = firstErrorIn (items :: 's NavigationTree list)"
proof (induction item and items rule: firstError_firstErrorIn.induct)
  case (1 t k sp cs)
  then show ?case by (cases cs; cases sp) auto
next
  case 2
  then show ?case by simp
next
  case (3 child rest)
  then show ?case by (auto split: option.splits)
qed

lemma children_symbolsOf:
  "symbolsOf K f n = [s] \<Longrightarrow> children s = concat (map (symbolsOf K f) (childList n))"
  by (cases n) (auto simp: childList_def split: if_splits option.splits)

lemma firstErrorIn_childList:
  "firstError n = None \<Longrightarrow> firstErrorIn (childList n) = None"
  by (cases n) (auto simp: childList_def split: if_splits option.splits)

lemma mem_keptNodes:
  "n \<in> set (keptNodes K tree) \<longleftrightarrow> n \<in> set (tree # descendants tree) \<and> retained K n"
  unfolding keptNodes_def set_filter by blast

lemma kept_node:
  assumes ws: "wellSpanned tree" and wl: "wellLabelled tree"
    and n: "n \<in> set (tree # descendants tree)" and rn: "retained K n"
  shows "n \<in> set (keptNodes K tree)
       \<and> (\<exists>sym \<in> set (concat (map symbols (symbolsOf K f tree))).
             convertNavTree K f [] n = Inr (True, [sym])
             \<and> name sym = item_text n
             \<and> convertEach K f [] (childList n) = Inr (children sym)
             \<and> (\<forall>d \<in> set (descendants n). retained K d \<longrightarrow>
                   (\<exists>s \<in> set (concat (map symbols (children sym))).
                       convertNavTree K f [] d = Inr (True, [s]))))"
proof -
  from firstError_node [OF ws wl n] have fn: "firstError n = None" by simp
  then have wn: "wellSpanned n" "wellLabelled n" by (simp_all add: firstError_None_iff)
  from n rn have k: "n \<in> set (keptNodes K tree)" by (simp only: mem_keptNodes)
  from symbolsOf_retained [OF rn, of f] obtain sym where
    sym: "symbolsOf K f n = [sym]" and nm: "name sym = item_text n" by simp
  from sym have "sym \<in> set (symbolsOf K f n)" by simp
  from symbolsOf_in_output [OF n this]
  have mem: "sym \<in> set (concat (map symbols (symbolsOf K f tree)))" .
  from fn rn sym have conv: "convertNavTree K f [] n = Inr (True, [sym])"
    by (simp add: convert_ok)
  from firstErrorIn_childList [OF fn] children_symbolsOf [OF sym]
  have kids: "convertEach K f [] (childList n) = Inr (children sym)"
    by (simp add: convertEach_result)
  have below: "\<exists>s \<in> set (concat (map symbols (children sym))). convertNavTree K f [] d = Inr (True, [s])"
    if d: "d \<in> set (descendants n)" and rd: "retained K d" for d
  proof -
    from wn d have "wellSpanned d" "wellLabelled d"
      using wellSpanned_descendants wellLabelled_descendants by blast+
    then have fd: "firstError d = None" by (simp add: firstError_None_iff)
    from symbolsOf_retained [OF rd, of f] obtain s where s: "symbolsOf K f d = [s]" by blast
    then have "s \<in> set (symbolsOf K f d)" by simp
    from symbolsOf_descendant [OF d this] sym
    have "s \<in> set (concat (map symbols (children sym)))" by simp
    moreover from fd rd s have "convertNavTree K f [] d = Inr (True, [s])"
      by (simp add: convert_ok)
    ultimately show ?thesis by blast
  qed
  from k mem conv nm kids below show ?thesis by blast
qed

lemma dropped_node:
  assumes ws: "wellSpanned tree" and wl: "wellLabelled tree"
    and n: "n \<in> set (tree # descendants tree)" and rn: "\<not> retained K n"
    and m: "m \<in> set (n # descendants n)"
  shows "m \<notin> set (keptNodes K tree) \<and> convertNavTree K f b m = Inr (False, b)"
proof -
  from rn m have rm: "\<not> retained K m" by (rule not_retained_subtree)
  from firstError_node [OF ws wl n] have "wellSpanned n \<and> wellLabelled n"
    by (simp add: firstError_None_iff)
  with m have "wellSpanned m \<and> wellLabelled m"
    using wellSpanned_descendants wellLabelled_descendants by auto
  then have "firstError m = None" by (simp add: firstError_None_iff)
  with rm have "convertNavTree K f b m = Inr (False, b)"
    by (simp add: convert_ok symbolsOf_not_retained)
  moreover from rm have "m \<notin> set (keptNodes K tree)" by (simp only: mem_keptNodes) simp
  ultimately show ?thesis by simp
qed

section \<open>Document symbols: the claims\<close>

text \<open>
  Claim C6. The per-node inclusion predicate \<open>shouldInclueEntry\<close> holds exactly when the
  node's kind is not the alias kind, its label is not empty and its label is neither
  \<^verbatim>\<open><function>\<close> nor \<^verbatim>\<open><class>\<close>; the node is excluded exactly when its kind is the
  alias kind or its label is empty or one of the two placeholder labels.
\<close>

theorem shouldInclueEntry_iff:
  "(shouldInclueEntry K item \<longleftrightarrow>
      item_kind item \<noteq> Kind_alias K \<and> item_text item \<noteq> [] \<and>
      item_text item \<noteq> ''<function>'' \<and> item_text item \<noteq> ''<class>'')
   \<and> (\<not> shouldInclueEntry K item \<longleftrightarrow>
      item_kind item = Kind_alias K \<or> item_text item = [] \<or>
      item_text item = ''<function>'' \<or> item_text item = ''<class>'')"
  by (simp add: shouldInclueEntry_def js_and_def)

theorem shouldInclueEntry_iff_witness:
  "shouldInclueEntry sampleKinds (NavigationTree ''x'' ''var'' [2::nat] None)
   \<and> \<not> shouldInclueEntry sampleKinds functionOverX
   \<and> \<not> shouldInclueEntry sampleKinds aliasOverY"
  using shouldInclueEntry_iff [of sampleKinds "NavigationTree ''x'' ''var'' [2::nat] None"]
    shouldInclueEntry_iff [of sampleKinds functionOverX]
    shouldInclueEntry_iff [of sampleKinds aliasOverY]
  by (simp add: sampleKinds_def functionOverX_def aliasOverY_def)

text \<open>
  Claim C1, as the code has it. Take a tree whose nodes all carry a span and a label that
  is not empty; on any other tree the conversion throws. The conversion returns, and its
  output shows exactly the nodes that pass the filtering rule or lie above a node that
  does, parents before children. A node anywhere in the tree that fails the rule and has
  a qualifying descendant is among them: its symbol is in the output under the node's own
  label, the children of that symbol are the converted child nodes, and every qualifying
  descendant appears beneath it. Nothing is moved to an ancestor. A node that fails the
  rule and has no qualifying descendant contributes nothing, and neither does any node
  below it.
\<close>

theorem excluded_node_kept_over_qualifying_descendant:
  assumes ws: "wellSpanned tree" and wl: "wellLabelled tree"
    and n: "n \<in> set (tree # descendants tree)" and ex: "\<not> shouldInclueEntry K n"
  shows "\<exists>inc out. convertNavTree K f bucket tree = Inr (inc, bucket @ out)
           \<and> emitted out = map (nodeHeader K f) (keptNodes K tree)
           \<and> (if list_ex (shouldInclueEntry K) (descendants n)
              then n \<in> set (keptNodes K tree)
                 \<and> (\<exists>sym \<in> set (concat (map symbols out)).
                       convertNavTree K f [] n = Inr (True, [sym])
                       \<and> name sym = item_text n
                       \<and> convertEach K f [] (childList n) = Inr (children sym)
                       \<and> (\<forall>d \<in> set (descendants n). shouldInclueEntry K d \<longrightarrow>
                             (\<exists>s \<in> set (concat (map symbols (children sym))).
                                 convertNavTree K f [] d = Inr (True, [s]))))
              else (\<forall>m \<in> set (n # descendants n).
                      m \<notin> set (keptNodes K tree)
                      \<and> (\<forall>b. convertNavTree K f b m = Inr (False, b))))"
proof -
  from ws wl have "firstError tree = None" by (simp add: firstError_None_iff)
  then have conv: "convertNavTree K f bucket tree =
      Inr (retained K tree, bucket @ symbolsOf K f tree)"
    by (rule convert_ok)
  have em: "emitted (symbolsOf K f tree) = map (nodeHeader K f) (keptNodes K tree)"
    by (rule emitted_symbolsOf)
  have q: "shouldInclueEntry K d \<Longrightarrow> retained K d" for d :: "'a NavigationTree"
    by (simp add: retained_iff)
  show ?thesis
  proof (cases "list_ex (shouldInclueEntry K) (descendants n)")
    case True
    then have "retained K n" by (simp add: retained_iff)
    from kept_node [OF ws wl n this, of f] q
    have k: "n \<in> set (keptNodes K tree)
       \<and> (\<exists>sym \<in> set (concat (map symbols (symbolsOf K f tree))).
             convertNavTree K f [] n = Inr (True, [sym])
             \<and> name sym = item_text n
             \<and> convertEach K f [] (childList n) = Inr (children sym)
             \<and> (\<forall>d \<in> set (descendants n). shouldInclueEntry K d \<longrightarrow>
                   (\<exists>s \<in> set (concat (map symbols (children sym))).
                       convertNavTree K f [] d = Inr (True, [s]))))"
      by blast
    show ?thesis
      apply (rule exI [of _ "retained K tree"])
      apply (rule exI [of _ "symbolsOf K f tree"])
      apply (simp only: if_P [OF True])
      using conv em k apply blast
      done
  next
    case False
    with ex have "\<not> retained K n" by (simp add: retained_iff)
    from dropped_node [OF ws wl n this, of _ f]
    have d: "\<forall>m \<in> set (n # descendants n).
               m \<notin> set (keptNodes K tree) \<and> (\<forall>b. convertNavTree K f b m = Inr (False, b))"
      by blast
    show ?thesis
      apply (rule exI [of _ "retained K tree"])
      apply (rule exI [of _ "symbolsOf K f tree"])
      apply (simp only: if_not_P [OF False])
      using conv em d apply blast
      done
  qed
qed

theorem excluded_node_kept_over_qualifying_descendant_witness:
  "wellSpanned outerOverFunction \<and> wellLabelled outerOverFunction
   \<and> functionOverX \<in> set (outerOverFunction # descendants outerOverFunction)
   \<and> \<not> shouldInclueEntry sampleKinds functionOverX
   \<and> convertNavTree sampleKinds id [] outerOverFunction =
       Inr (True, [DocumentSymbol ''outer'' [] SymbolKind_Function 5 5
                     [DocumentSymbol ''<function>'' [] SymbolKind_Function 1 1
                        [DocumentSymbol ''x'' [] SymbolKind_Variable 2 2 []]]])"
proof -
  have ws: "wellSpanned outerOverFunction"
    by (simp add: outerOverFunction_def functionOverX_def)
  have wl: "wellLabelled outerOverFunction"
    by (simp add: outerOverFunction_def functionOverX_def)
  have n: "functionOverX \<in> set (outerOverFunction # descendants outerOverFunction)"
    by (simp add: outerOverFunction_def)
  have ex: "\<not> shouldInclueEntry sampleKinds functionOverX"
    by (simp add: functionOverX_def sampleKinds_def shouldInclueEntry_def js_and_def)
  from excluded_node_kept_over_qualifying_descendant [OF ws wl n ex, of id "[]"] ws wl n ex
  show ?thesis
    by (simp add: outerOverFunction_def functionOverX_def sampleKinds_def
          shouldInclueEntry_def js_and_def rangeOfFirstSpan_def newDocumentSymbol_def
          getSymbolKind_def)
qed

text \<open>
  The file's root has the child \<^verbatim>\<open><function>\<close> of kind function, which has the child
  \<open>x\<close> of kind variable. The answer lists the symbol \<^verbatim>\<open><function>\<close> at the top level,
  with \<open>x\<close> as its child.
\<close>

theorem excluded_node_dropped_counterexample:
  "provideDocumentSymbols sampleKinds id
       (answering (Resolves (Some (fileRoot [functionOverX])))) ''/a.ts'' ()
     = Inr (Some [DocumentSymbol ''<function>'' [] SymbolKind_Function 1 1
                    [DocumentSymbol ''x'' [] SymbolKind_Variable 2 2 []]])"
  by (simp add: provideDocumentSymbols_def answering_def fileRoot_def functionOverX_def
        sampleKinds_def shouldInclueEntry_def js_and_def rangeOfFirstSpan_def
        newDocumentSymbol_def getSymbolKind_def)

text \<open>
  Claim C2, as the code has it. Take a tree whose nodes all carry a span and a label that
  is not empty; on any other tree the conversion throws. A node of the alias kind,
  anywhere in the tree, never passes the filtering rule itself. It is left out of the
  output exactly when none of its descendants qualifies; when a descendant qualifies, the
  alias node's symbol is in the output under the node's own label.
\<close>

theorem alias_node_kept_iff_descendant_qualifies:
  assumes ws: "wellSpanned tree" and wl: "wellLabelled tree"
    and n: "n \<in> set (tree # descendants tree)" and al: "item_kind n = Kind_alias K"
  shows "\<not> shouldInclueEntry K n
       \<and> (\<exists>inc out. convertNavTree K f bucket tree = Inr (inc, bucket @ out)
             \<and> emitted out = map (nodeHeader K f) (keptNodes K tree)
             \<and> (if list_ex (shouldInclueEntry K) (descendants n)
                then n \<in> set (keptNodes K tree)
                   \<and> (\<exists>sym \<in> set (concat (map symbols out)).
                         convertNavTree K f [] n = Inr (True, [sym])
                         \<and> name sym = item_text n)
                else n \<notin> set (keptNodes K tree)
                   \<and> (\<forall>b. convertNavTree K f b n = Inr (False, b))))"
proof -
  from al have ex: "\<not> shouldInclueEntry K n" by (simp add: shouldInclueEntry_def)
  from ws wl have "firstError tree = None" by (simp add: firstError_None_iff)
  then have conv: "convertNavTree K f bucket tree =
      Inr (retained K tree, bucket @ symbolsOf K f tree)"
    by (rule convert_ok)
  have em: "emitted (symbolsOf K f tree) = map (nodeHeader K f) (keptNodes K tree)"
    by (rule emitted_symbolsOf)
  have "\<exists>inc out. convertNavTree K f bucket tree = Inr (inc, bucket @ out)
             \<and> emitted out = map (nodeHeader K f) (keptNodes K tree)
             \<and> (if list_ex (shouldInclueEntry K) (descendants n)
                then n \<in> set (keptNodes K tree)
                   \<and> (\<exists>sym \<in> set (concat (map symbols out)).
                         convertNavTree K f [] n = Inr (True, [sym])
                         \<and> name sym = item_text n)
                else n \<notin> set (keptNodes K tree)
                   \<and> (\<forall>b. convertNavTree K f b n = Inr (False, b)))"
  proof (cases "list_ex (shouldInclueEntry K) (descendants n)")
    case True
    then have "retained K n" by (simp add: retained_iff)
    from kept_node [OF ws wl n this, of f]
    have k: "n \<in> set (keptNodes K tree)
       \<and> (\<exists>sym \<in> set (concat (map symbols (symbolsOf K f tree))).
             convertNavTree K f [] n = Inr (True, [sym]) \<and> name sym = item_text n)"
      by blast
    show ?thesis
      apply (rule exI [of _ "retained K tree"])
      apply (rule exI [of _ "symbolsOf K f tree"])
      apply (simp only: if_P [OF True])
      using conv em k apply blast
      done
  next
    case False
    with ex have "\<not> retained K n" by (simp add: retained_iff)
    from dropped_node [OF ws wl n this, of n f]
    have d: "n \<notin> set (keptNodes K tree) \<and> (\<forall>b. convertNavTree K f b n = Inr (False, b))"
      by simp
    show ?thesis
      apply (rule exI [of _ "retained K tree"])
      apply (rule exI [of _ "symbolsOf K f tree"])
      apply (simp only: if_not_P [OF False])
      using conv em d apply blast
      done
  qed
  with ex show ?thesis by blast
qed

theorem alias_node_kept_iff_descendant_qualifies_witness:
  "wellSpanned moduleOverAlias \<and> wellLabelled moduleOverAlias
   \<and> aliasOverY \<in> set (moduleOverAlias # descendants moduleOverAlias)
   \<and> item_kind aliasOverY = Kind_alias sampleKinds
   \<and> \<not> shouldInclueEntry sampleKinds aliasOverY
   \<and> convertNavTree sampleKinds id [] moduleOverAlias =
       Inr (True, [DocumentSymbol ''m'' [] SymbolKind_Module 6 6
                     [DocumentSymbol ''a'' [] SymbolKind_Variable 3 3
                        [DocumentSymbol ''y'' [] SymbolKind_Variable 4 4 []]]])"
proof -
  have ws: "wellSpanned moduleOverAlias"
    by (simp add: moduleOverAlias_def aliasOverY_def)
  have wl: "wellLabelled moduleOverAlias"
    by (simp add: moduleOverAlias_def aliasOverY_def)
  have n: "aliasOverY \<in> set (moduleOverAlias # descendants moduleOverAlias)"
    by (simp add: moduleOverAlias_def)
  have al: "item_kind aliasOverY = Kind_alias sampleKinds"
    by (simp add: aliasOverY_def sampleKinds_def)
  from alias_node_kept_iff_descendant_qualifies [OF ws wl n al, of id "[]"] ws wl n al
  show ?thesis
    by (simp add: moduleOverAlias_def aliasOverY_def sampleKinds_def
          shouldInclueEntry_def js_and_def rangeOfFirstSpan_def newDocumentSymbol_def
          getSymbolKind_def)
qed

text \<open>
  The alias node \<open>a\<close> has the child \<open>y\<close> of kind variable. The answer lists the symbol
  \<open>a\<close>, with \<open>y\<close> as its child.
\<close>

theorem alias_node_excluded_counterexample:
  "provideDocumentSymbols sampleKinds id
       (answering (Resolves (Some (fileRoot [aliasOverY])))) ''/a.ts'' ()
     = Inr (Some [DocumentSymbol ''a'' [] SymbolKind_Variable 3 3
                    [DocumentSymbol ''y'' [] SymbolKind_Variable 4 4 []]])"
  by (simp add: provideDocumentSymbols_def answering_def fileRoot_def aliasOverY_def
        sampleKinds_def shouldInclueEntry_def js_and_def rangeOfFirstSpan_def
        newDocumentSymbol_def getSymbolKind_def)

text \<open>
  Claim C9. \<open>convertNavTree\<close> reads the first span of a node before anything else,
  whether or not the node ends up in the output: a node without spans makes the
  conversion raise a \<^verbatim>\<open>TypeError\<close>, and when every node of the tree has a span the
  read is in bounds and no \<^verbatim>\<open>TypeError\<close> arises. Every emitted symbol has the
  converted first span of its node as its full range and as its selection range, and the
  spans after the first have no influence on the result.
\<close>

theorem convertNavTree_reads_only_first_span:
  "(wellSpanned item \<longrightarrow> convertNavTree K f bucket item \<noteq> Inl TypeError)
   \<and> (wellSpanned item \<and> wellLabelled item \<longrightarrow>
        (\<exists>inc out. convertNavTree K f bucket item = Inr (inc, bucket @ out)
           \<and> emitted out = map (nodeHeader K f) (keptNodes K item)
           \<and> (inc \<longrightarrow> (\<exists>sym. out = [sym]
                 \<and> fullRange sym = f (hd (spans item))
                 \<and> selectionRange sym = f (hd (spans item))))))
   \<and> (wellLabelled item \<and> \<not> wellSpanned item \<longrightarrow>
        convertNavTree K f bucket item = Inl TypeError)
   \<and> convertNavTree K f bucket (NavigationTree t k [] cs) = Inl TypeError
   \<and> convertNavTree K f bucket (firstSpanOnly item) = convertNavTree K f bucket item"
proof (intro conjI impI)
  assume ws: "wellSpanned item"
  show "convertNavTree K f bucket item \<noteq> Inl TypeError"
  proof (cases "firstError item")
    case None
    then show ?thesis by (simp add: convert_ok)
  next
    case (Some e)
    with ws have "e \<noteq> TypeError" using firstError_TypeError(1) by blast
    with Some show ?thesis by (simp add: convert_fails)
  qed
next
  assume "wellSpanned item \<and> wellLabelled item"
  then have fe: "firstError item = None" by (simp add: firstError_None_iff)
  have em: "emitted (symbolsOf K f item) = map (nodeHeader K f) (keptNodes K item)"
    by (rule emitted_symbolsOf)
  show "\<exists>inc out. convertNavTree K f bucket item = Inr (inc, bucket @ out)
           \<and> emitted out = map (nodeHeader K f) (keptNodes K item)
           \<and> (inc \<longrightarrow> (\<exists>sym. out = [sym]
                 \<and> fullRange sym = f (hd (spans item))
                 \<and> selectionRange sym = f (hd (spans item))))"
  proof (cases "retained K item")
    case True
    from fe True em show ?thesis
      by (auto simp: convert_ok symbolsOf_retained)
  next
    case False
    from fe False em show ?thesis
      by (auto simp: convert_ok)
  qed
next
  assume a: "wellLabelled item \<and> \<not> wellSpanned item"
  then have "firstError item \<noteq> None" by (simp add: firstError_None_iff)
  then obtain e where e: "firstError item = Some e" by blast
  with a have "e = TypeError" using firstError_labelled(1) by blast
  with e show "convertNavTree K f bucket item = Inl TypeError"
    by (simp add: convert_fails)
next
  show "convertNavTree K f bucket (NavigationTree t k [] cs) = Inl TypeError"
    by (simp add: rangeOfFirstSpan_def)
next
  show "convertNavTree K f bucket (firstSpanOnly item) = convertNavTree K f bucket item"
    by (simp only: convert_result firstError_firstSpanOnly retained_firstSpanOnly
          symbolsOf_firstSpanOnly)
qed

theorem convertNavTree_reads_only_first_span_witness:
  "wellSpanned twoSpans \<and> wellLabelled twoSpans
   \<and> convertNavTree sampleKinds id [] twoSpans =
        Inr (True, [DocumentSymbol ''f'' [] SymbolKind_Function 7 7 []])
   \<and> \<not> wellSpanned noSpans \<and> wellLabelled noSpans
   \<and> convertNavTree sampleKinds id [] noSpans = Inl TypeError"
  using convertNavTree_reads_only_first_span [of twoSpans sampleKinds id "[]"]
    convertNavTree_reads_only_first_span [of noSpans sampleKinds id "[]"]
  by (simp add: twoSpans_def noSpans_def sampleKinds_def shouldInclueEntry_def js_and_def
        rangeOfFirstSpan_def newDocumentSymbol_def getSymbolKind_def)




section \<open>Quick pick keybindings: the generated chords\<close>

text \<open>
  The pushes of \<open>getSecondary\<close> follow the table: the result is the list passed in,
  followed by the chords of the combinations whose flags are all set.
\<close>

lemma getSecondary_append:
  "getSecondary KM mac P s opts = s @ generated KM mac P opts"
  by (cases "isSet (withAltMod opts)"; cases "isSet (withCtrlMod opts)";
      cases "isSet (withCmdMod opts)"; cases mac)
     (simp_all add: getSecondary_def generated_def combinations_def chord_def Let_def)

text \<open>
  Claim C7. Off the Macintosh platform, with all three options set and no secondary
  chords given, \<open>getSecondary\<close> returns the chords Alt+P, Ctrl+P and Alt+Ctrl+P and
  nothing else, where Ctrl is the platform's control modifier \<^verbatim>\<open>KeyMod.CtrlCmd\<close>; the
  block of the command modifier adds no entry.
\<close>

theorem getSecondary_all_mods_off_mac:
  "getSecondary KM False P []
      \<lparr>withAltMod = Some True, withCtrlMod = Some True, withCmdMod = Some True\<rparr>
     = [KeyMod_Alt KM + P, KeyMod_CtrlCmd KM + P, KeyMod_Alt KM + KeyMod_CtrlCmd KM + P]
   \<and> set (getSecondary KM False P []
      \<lparr>withAltMod = Some True, withCtrlMod = Some True, withCmdMod = Some True\<rparr>)
     = {KeyMod_Alt KM + P, KeyMod_CtrlCmd KM + P, KeyMod_Alt KM + KeyMod_CtrlCmd KM + P}"
  by (simp add: getSecondary_def Let_def)

text \<open>
  Claim C8. For every primary chord, platform and choice of the three options,
  \<open>getSecondary\<close> generates, in a fixed order, exactly those of the combinations alt, ctrl,
  alt+ctrl, cmd, cmd+ctrl, cmd+alt, cmd+alt+ctrl whose modifiers are all set, the command
  modifier counting as set only on the Macintosh platform. Off that platform only the
  first three combinations can occur and the command option has no effect.
\<close>

theorem getSecondary_enumerates_set_combinations:
  "getSecondary KM mac P [] opts =
      map (chord KM mac P) (filter (list_all (modifierSet mac opts)) combinations)
   \<and> (\<not> mac \<longrightarrow>
        getSecondary KM mac P [] opts =
          map (chord KM mac P)
            (filter (list_all (modifierSet mac opts)) [[Alt], [Ctrl], [Alt, Ctrl]])
        \<and> getSecondary KM mac P [] opts
            = getSecondary KM mac P [] (opts\<lparr>withCmdMod := None\<rparr>))"
proof -
  have a: "getSecondary KM mac P [] opts =
      map (chord KM mac P) (filter (list_all (modifierSet mac opts)) combinations)"
    using getSecondary_append [of KM mac P "[]" opts] by (simp add: generated_def)
  have b: "filter (list_all (modifierSet False opts)) combinations =
      filter (list_all (modifierSet False opts)) [[Alt], [Ctrl], [Alt, Ctrl]]"
    by (simp add: combinations_def)
  have c: "getSecondary KM False P [] opts
      = getSecondary KM False P [] (opts\<lparr>withCmdMod := None\<rparr>)"
    by (simp add: getSecondary_def Let_def)
  from a b c show ?thesis by auto
qed

theorem getSecondary_enumerates_set_combinations_witness:
  "getSecondary sampleKeyMod False 18 [] allMods = [530, 2066, 2578]
   \<and> getSecondary sampleKeyMod True 18 [] allMods
       = [530, 274, 786, 2066, 2322, 2578, 2834]"
  using getSecondary_enumerates_set_combinations [of sampleKeyMod False 18 allMods]
    getSecondary_enumerates_set_combinations [of sampleKeyMod True 18 allMods]
  by (simp add: sampleKeyMod_def allMods_def combinations_def chord_def)

text \<open>
  Claim C10. The list returned by \<open>getSecondary\<close> starts with the secondary chords that
  were passed in, unchanged and in their order, and the generated chords follow; they are
  the chords generated for an empty list. A rule registered with its own secondary
  chords therefore keeps them in front.
\<close>

theorem getSecondary_keeps_given_chords:
  "prefix s (getSecondary KM mac P s opts)
   \<and> getSecondary KM mac P s opts = s @ getSecondary KM mac P [] opts
   \<and> rule_secondary (last (registerQuickPickCommandAndKeybindingRule KM mac rule opts registry)) =
       Some ((case rule_secondary rule of None \<Rightarrow> [] | Some given \<Rightarrow> given)
             @ getSecondary KM mac (rule_primary rule) [] opts)"
  by (simp add: getSecondary_append [of KM mac _ "[]"] getSecondary_append [of KM mac _ s]
        getSecondary_append [of KM mac _
          "case rule_secondary rule of None \<Rightarrow> [] | Some given \<Rightarrow> given"]
        registerQuickPickCommandAndKeybindingRule_def)

theorem getSecondary_keeps_given_chords_witness:
  "getSecondary sampleKeyMod True (2048 + 512 + 18) [2048 + 256 + 18]
     \<lparr>withAltMod = None, withCtrlMod = Some True, withCmdMod = None\<rparr> = [2322, 2834]"
  using getSecondary_keeps_given_chords [of "[2048 + 256 + 18]" sampleKeyMod True
      "2048 + 512 + 18" "\<lparr>withAltMod = None, withCtrlMod = Some True, withCmdMod = None\<rparr>"]
  by (simp add: getSecondary_def sampleKeyMod_def Let_def)

end
